theory Spec2Isabelle
  imports Complex_Main "HOL-Library.AList"
begin

section \<open>MusicXML to JSON conversion (scripts/conv.py)\<close>

text \<open>
  Python floats are modelled as exact rationals (\<^typ>\<open>rat\<close>): the quotient
  \<open>duration / divisions\<close>, the sums of beats and the tolerance \<open>0.0001\<close> are taken
  exactly. Integer-valued element texts (\<open>int(elem.text)\<close>) are taken as parsed integers.
  Every exception the code can raise on such a document is a value of \<open>py_error\<close>.
\<close>

datatype py_error = KeyError string | ZeroDivisionError | AttributeError | ValueError

subsection \<open>The Note dataclass and the converter object\<close>

record Note =
  pitch :: int
  beat :: rat
  duration :: rat
  velocity :: int
  voice :: string
  staff :: int

type_synonym tie_key = "int \<times> string \<times> int"

text \<open>
  Note objects are shared between the output list and the tie table and mutated in place,
  so they live in an explicit store: \<open>heap\<close> holds every Note object created (an address
  is a position in it), \<open>out_notes\<close> (the list \<open>self.notes\<close>) and \<open>active_ties\<close> hold addresses. The dict
  \<open>voice_beats\<close> is an association list in insertion order.
\<close>

record converter =
  divisions :: int
  current_beat :: rat
  out_notes :: "nat list"
  active_ties :: "tie_key \<rightharpoonup> nat"
  chord_start_beat :: rat
  voice_beats :: "(string \<times> rat) list"
  heap :: "Note list"

definition init :: converter where
  "init = \<lparr>divisions = 24, current_beat = 0, out_notes = [], active_ties = Map.empty,
           chord_start_beat = 0, voice_beats = [], heap = []\<rparr>"

subsection \<open>The parsed document\<close>

record pitch_elem =
  step :: "string option"
  alter :: "int option"
  octave :: "int option"

record note_elem =
  ne_voice :: "string option"
  ne_staff :: "int option"
  ne_duration :: "int option"
  ne_rest :: bool
  ne_pitch :: "pitch_elem option"
  ne_chord :: bool
  ne_tie_stop :: bool
  ne_tie_start :: bool

datatype elem =
  Attributes "int option"
| NoteElem note_elem
| Backup "int option"
| Forward "int option"
| OtherElem

type_synonym measure = "elem list"
type_synonym part = "measure list"

record document =
  work_title :: "string option"
  parts :: "part list"

subsection \<open>The output schema\<close>

record timing =
  jbeat :: rat
  jduration :: rat

record json_note =
  jpitch :: int
  timing :: timing
  jvelocity :: int

record 'n song =
  title :: string
  bpm :: int
  song_notes :: "'n list"

subsection \<open>Formatting integers (f-strings)\<close>

fun str_nat :: "nat \<Rightarrow> string" where
  "str_nat n = (if n < 10 then [''0123456789'' ! n]
                else str_nat (n div 10) @ [''0123456789'' ! (n mod 10)])"

declare str_nat.simps [simp del]

definition str_int :: "int \<Rightarrow> string" where
  "str_int i = (if i < 0 then CHR ''-'' # str_nat (nat (- i)) else str_nat (nat i))"

subsection \<open>Pitch, duration, quantizer\<close>

definition note_map :: "string \<rightharpoonup> int" where
  "note_map = [''C'' \<mapsto> 0, ''D'' \<mapsto> 2, ''E'' \<mapsto> 4, ''F'' \<mapsto> 5, ''G'' \<mapsto> 7,
               ''A'' \<mapsto> 9, ''B'' \<mapsto> 11]"

definition pitch_to_midi :: "string \<Rightarrow> int \<Rightarrow> int \<Rightarrow> py_error + int" where
  "pitch_to_midi stp alt oct =
     (case note_map stp of
        None \<Rightarrow> Inl (KeyError stp)
      | Some off \<Rightarrow> Inr ((oct + 1) * 12 + off + alt))"

definition duration_to_beats :: "converter \<Rightarrow> int \<Rightarrow> py_error + rat" where
  "duration_to_beats s d =
     (if divisions s = 0 then Inl ZeroDivisionError
      else Inr (of_int d / of_int (divisions s)))"

text \<open>Python's \<open>round\<close> to an integer: to the nearest, a tie going to the even one.\<close>

definition py_round :: "rat \<Rightarrow> int" where
  "py_round x =
     (let f = \<lfloor>x\<rfloor>; r = x - of_int f
      in if r < 1 / 2 then f else if 1 / 2 < r then f + 1
         else if even f then f else f + 1)"

definition round_beat :: "rat \<Rightarrow> rat" where
  "round_beat b =
     (let rounded = py_round b in
      if \<bar>b - of_int rounded\<bar> < 1 / 10000 then of_int rounded
      else let half_rounded = of_int (py_round (b * 2)) / 2 in
      if \<bar>b - half_rounded\<bar> < 1 / 10000 then half_rounded
      else let quarter_rounded = of_int (py_round (b * 4)) / 4 in
      if \<bar>b - quarter_rounded\<bar> < 1 / 10000 then quarter_rounded
      else b)"

subsection \<open>Voice cursors\<close>

definition voice_key :: "string \<Rightarrow> int \<Rightarrow> string" where
  "voice_key v st = v @ ''_'' @ str_int st"

definition elem_voice :: "note_elem \<Rightarrow> string" where
  "elem_voice e = (case ne_voice e of None \<Rightarrow> ''1'' | Some v \<Rightarrow> v)"

definition elem_staff :: "note_elem \<Rightarrow> int" where
  "elem_staff e = (case ne_staff e of None \<Rightarrow> 1 | Some st \<Rightarrow> st)"

text \<open>\<open>if voice_key not in self.voice_beats: self.voice_beats[voice_key] = self.current_beat\<close>\<close>

definition seed_voice :: "converter \<Rightarrow> string \<Rightarrow> converter" where
  "seed_voice s vk =
     (case map_of (voice_beats s) vk of
        None \<Rightarrow> s\<lparr>voice_beats := AList.update vk (current_beat s) (voice_beats s)\<rparr>
      | Some _ \<Rightarrow> s)"

text \<open>\<open>self.voice_beats[voice_key]\<close>\<close>

definition voice_beat :: "converter \<Rightarrow> string \<Rightarrow> py_error + rat" where
  "voice_beat s vk =
     (case map_of (voice_beats s) vk of None \<Rightarrow> Inl (KeyError vk) | Some b \<Rightarrow> Inr b)"

text \<open>\<open>max(self.voice_beats.values())\<close>, a ValueError on an empty dict\<close>

fun max_values :: "(string \<times> rat) list \<Rightarrow> py_error + rat" where
  "max_values [] = Inl ValueError"
| "max_values ((k, v) # kvs) = Inr (fold max (map snd kvs) v)"

subsection \<open>process_note_element\<close>

text \<open>Returns the address of the Note object it creates, or None.\<close>

definition process_note_element :: "converter \<Rightarrow> note_elem \<Rightarrow> py_error + (converter \<times> nat option)" where
  "process_note_element s e =
     (let vc = elem_voice e; stf = elem_staff e in
      case ne_duration e of
        None \<Rightarrow> Inr (s, None)
      | Some d \<Rightarrow>
      (case duration_to_beats s d of
        Inl err \<Rightarrow> Inl err
      | Inr duration_beats \<Rightarrow>
      if ne_rest e then Inr (s, None)
      else
      (case ne_pitch e of
        None \<Rightarrow> Inr (s, None)
      | Some p \<Rightarrow>
      (case step p of
        None \<Rightarrow> Inl AttributeError
      | Some stp \<Rightarrow>
      (case octave p of
        None \<Rightarrow> Inl AttributeError
      | Some oct \<Rightarrow>
      (case pitch_to_midi stp (case alter p of None \<Rightarrow> 0 | Some a \<Rightarrow> a) oct of
        Inl err \<Rightarrow> Inl err
      | Inr midi_pitch \<Rightarrow>
      (let s1 = seed_voice s (voice_key vc stf) in
       case voice_beat s1 (voice_key vc stf) of
        Inl err \<Rightarrow> Inl err
      | Inr beat_position \<Rightarrow>
          Inr (s1\<lparr>heap := heap s1 @
                 [\<lparr>pitch = midi_pitch, beat = beat_position, duration = duration_beats,
                   velocity = 80, voice = vc, staff = stf\<rparr>]\<rparr>,
               Some (length (heap s1))))))))))"

subsection \<open>process_tie\<close>

text \<open>Takes the address of the note; returns whether the note is to be added.\<close>

definition process_tie :: "converter \<Rightarrow> note_elem \<Rightarrow> nat \<Rightarrow> converter \<times> bool" where
  "process_tie s e a =
     (let note = heap s ! a; tie_key = (pitch note, voice note, staff note) in
      case (if ne_tie_stop e then active_ties s tie_key else None) of
        Some t \<Rightarrow>
          (let tied_note = heap s ! t;
               s1 = s\<lparr>heap := (heap s)[t := tied_note\<lparr>duration := duration tied_note + duration note\<rparr>]\<rparr>
           in if ne_tie_start e then (s1, False)
              else (s1\<lparr>active_ties := (active_ties s1)(tie_key := None)\<rparr>, False))
      | None \<Rightarrow>
          if ne_tie_start e then (s\<lparr>active_ties := (active_ties s)(tie_key \<mapsto> a)\<rparr>, True)
          else (s, True))"

subsection \<open>process_measure\<close>

text \<open>
  The \<open>note\<close> branch of the loop body. The measure's starting beat and the running
  \<open>measure_duration\<close> are the local variables of \<open>process_measure\<close>.
\<close>

definition process_note :: "rat \<Rightarrow> converter \<Rightarrow> rat \<Rightarrow> note_elem \<Rightarrow> py_error + (converter \<times> rat)" where
  "process_note measure_start_beat s measure_duration e =
     (let vk = voice_key (elem_voice e) (elem_staff e) in
      case (case ne_duration e of Some d \<Rightarrow> duration_to_beats s d | None \<Rightarrow> Inr 0) of
        Inl err \<Rightarrow> Inl err
      | Inr duration_beats \<Rightarrow>
      (let is_chord = ne_chord e; s1 = seed_voice s vk in
       case (if \<not> is_chord
             then (case voice_beat s1 vk of
                     Inl err \<Rightarrow> Inl err
                   | Inr b \<Rightarrow> Inr (s1\<lparr>chord_start_beat := b\<rparr>))
             else Inr s1) of
        Inl err \<Rightarrow> Inl err
      | Inr s2 \<Rightarrow>
      (case process_note_element s2 e of
        Inl err \<Rightarrow> Inl err
      | Inr (s3, r) \<Rightarrow>
      (let s4 =
         (case r of
            None \<Rightarrow> s3
          | Some a \<Rightarrow>
              (let s3a = (if is_chord
                          then s3\<lparr>heap := (heap s3)[a := (heap s3 ! a)\<lparr>beat := chord_start_beat s3\<rparr>]\<rparr>
                          else s3);
                   (s3b, should_add) = process_tie s3a e a
               in if should_add then s3b\<lparr>out_notes := out_notes s3b @ [a]\<rparr> else s3b))
       in if \<not> is_chord then
            (case voice_beat s4 vk of
               Inl err \<Rightarrow> Inl err
             | Inr b \<Rightarrow>
               (let s5 = s4\<lparr>voice_beats := AList.update vk (b + duration_beats) (voice_beats s4)\<rparr> in
                case max_values (voice_beats s5) of
                  Inl err \<Rightarrow> Inl err
                | Inr m \<Rightarrow>
                  (let s6 = s5\<lparr>current_beat := m\<rparr>;
                       current_position = current_beat s6 - measure_start_beat
                   in Inr (s6, max measure_duration current_position))))
          else Inr (s4, measure_duration)))))"

fun process_elem :: "rat \<Rightarrow> converter \<times> rat \<Rightarrow> elem \<Rightarrow> py_error + (converter \<times> rat)" where
  "process_elem measure_start_beat (s, measure_duration) (Attributes dv) =
     (case dv of
        None \<Rightarrow> Inr (s, measure_duration)
      | Some n \<Rightarrow> Inr (s\<lparr>divisions := n\<rparr>, measure_duration))"
| "process_elem measure_start_beat (s, measure_duration) (NoteElem e) =
     process_note measure_start_beat s measure_duration e"
| "process_elem measure_start_beat (s, measure_duration) (Backup du) =
     (case du of
        None \<Rightarrow> Inr (s, measure_duration)
      | Some d \<Rightarrow>
        (case duration_to_beats s d of
           Inl err \<Rightarrow> Inl err
         | Inr backup_beats \<Rightarrow> Inr (s\<lparr>current_beat := measure_start_beat\<rparr>, measure_duration)))"
| "process_elem measure_start_beat (s, measure_duration) (Forward du) =
     (case du of
        None \<Rightarrow> Inr (s, measure_duration)
      | Some d \<Rightarrow>
        (case duration_to_beats s d of
           Inl err \<Rightarrow> Inl err
         | Inr forward_beats \<Rightarrow>
             Inr (s\<lparr>current_beat := current_beat s + forward_beats\<rparr>, measure_duration)))"
| "process_elem measure_start_beat (s, measure_duration) OtherElem = Inr (s, measure_duration)"

fun process_elems :: "rat \<Rightarrow> converter \<times> rat \<Rightarrow> elem list \<Rightarrow> py_error + (converter \<times> rat)" where
  "process_elems measure_start_beat sm [] = Inr sm"
| "process_elems measure_start_beat sm (el # els) =
     (case process_elem measure_start_beat sm el of
        Inl err \<Rightarrow> Inl err
      | Inr sm' \<Rightarrow> process_elems measure_start_beat sm' els)"

definition process_measure :: "converter \<Rightarrow> measure \<Rightarrow> py_error + converter" where
  "process_measure s measure_elem =
     (let measure_start_beat = current_beat s in
      case process_elems measure_start_beat (s, 0) measure_elem of
        Inl err \<Rightarrow> Inl err
      | Inr (s', measure_duration) \<Rightarrow>
          Inr (if 0 < measure_duration
               then s'\<lparr>current_beat := measure_start_beat + measure_duration\<rparr>
               else s'))"

subsection \<open>convert_file\<close>

fun process_measures :: "converter \<Rightarrow> measure list \<Rightarrow> py_error + converter" where
  "process_measures s [] = Inr s"
| "process_measures s (m # ms) =
     (case process_measure s m of
        Inl err \<Rightarrow> Inl err
      | Inr s' \<Rightarrow> process_measures s' ms)"

definition process_part :: "converter \<Rightarrow> part \<Rightarrow> py_error + converter" where
  "process_part s p = process_measures (s\<lparr>current_beat := 0, voice_beats := []\<rparr>) p"

fun process_parts :: "converter \<Rightarrow> part list \<Rightarrow> py_error + converter" where
  "process_parts s [] = Inr s"
| "process_parts s (p # ps) =
     (case process_part s p of
        Inl err \<Rightarrow> Inl err
      | Inr s' \<Rightarrow> process_parts s' ps)"

definition to_json :: "Note \<Rightarrow> json_note" where
  "to_json note =
     \<lparr>jpitch = pitch note,
      timing = \<lparr>jbeat = round_beat (beat note), jduration = round_beat (duration note)\<rparr>,
      jvelocity = velocity note\<rparr>"

text \<open>
  The reset of \<open>self.notes\<close> and \<open>self.active_ties\<close> drops every reference to the Note
  objects of an earlier conversion, so the store starts empty again.
\<close>

definition reset :: "converter \<Rightarrow> converter" where
  "reset s = s\<lparr>current_beat := 0, out_notes := [], active_ties := Map.empty,
               voice_beats := [], heap := []\<rparr>"

definition convert_file :: "converter \<Rightarrow> document \<Rightarrow> py_error + (converter \<times> json_note song)" where
  "convert_file s doc =
     (case process_parts (reset s) (parts doc) of
        Inl err \<Rightarrow> Inl err
      | Inr s' \<Rightarrow>
          Inr (s',
               \<lparr>title = (case work_title doc of None \<Rightarrow> ''Untitled'' | Some t \<Rightarrow> t),
                bpm = 120,
                song_notes = sort_key (\<lambda>x. jbeat (timing x))
                               (map (\<lambda>a. to_json (heap s' ! a)) (out_notes s'))\<rparr>))"

section \<open>The editing tool (scripts/edit_json.py)\<close>

text \<open>
  A note of the song data is any record that has the fields of the schema; whatever else
  it carries is the record's extension. A missing top-level key of the song data is None.
\<close>

record 'n song_data =
  sd_title :: "string option"
  sd_bpm :: "int option"
  sd_notes :: "'n list option"

definition SongEditor :: "'n song_data \<Rightarrow> 'n song" where
  "SongEditor song_data =
     \<lparr>title = (case sd_title song_data of None \<Rightarrow> ''Untitled'' | Some t \<Rightarrow> t),
      bpm = (case sd_bpm song_data of None \<Rightarrow> 120 | Some b \<Rightarrow> b),
      song_notes = (case sd_notes song_data of None \<Rightarrow> [] | Some ns \<Rightarrow> ns)\<rparr>"

text \<open>The loop over \<open>self.notes\<close>, with \<open>extracted_notes\<close> as its accumulator.\<close>

fun extract_loop :: "int \<Rightarrow> int \<Rightarrow> 'a json_note_scheme list \<Rightarrow> 'a json_note_scheme list
    \<Rightarrow> 'a json_note_scheme list" where
  "extract_loop start_beat end_beat [] extracted_notes = extracted_notes"
| "extract_loop start_beat end_beat (note # rest) extracted_notes =
     (let note_beat = jbeat (timing note) in
      if of_int start_beat \<le> note_beat \<and> note_beat < of_int end_beat
      then extract_loop start_beat end_beat rest
             (extracted_notes @
                [note\<lparr>timing := (timing note)\<lparr>jbeat := note_beat - of_int start_beat\<rparr>\<rparr>])
      else extract_loop start_beat end_beat rest extracted_notes)"

text \<open>The two characters of the title suffix, as their UTF-8 bytes.\<close>

definition shousetsu :: string where
  "shousetsu = [CHR 0xE5, CHR 0xB0, CHR 0x8F, CHR 0xE7, CHR 0xAF, CHR 0x80]"

definition extract_measures :: "'a json_note_scheme song \<Rightarrow> int \<Rightarrow> int \<Rightarrow> int
    \<Rightarrow> 'a json_note_scheme song" where
  "extract_measures self start_measure end_measure beats_per_measure =
     (let start_beat = (start_measure - 1) * beats_per_measure;
          end_beat = end_measure * beats_per_measure
      in \<lparr>title = title self @ '' ('' @ shousetsu @ '' '' @ str_int start_measure @ ''-''
                   @ str_int end_measure @ '')'',
          bpm = bpm self,
          song_notes = extract_loop start_beat end_beat (song_notes self) []\<rparr>)"

section \<open>Example documents and states\<close>

definition quarter_c4 :: "string option \<Rightarrow> int option \<Rightarrow> note_elem" where
  "quarter_c4 v st = \<lparr>ne_voice = v, ne_staff = st, ne_duration = Some 24, ne_rest = False,
          ne_pitch = Some \<lparr>step = Some ''C'', alter = None, octave = Some 4\<rparr>,
          ne_chord = False, ne_tie_stop = False, ne_tie_start = False\<rparr>"

definition two_quarters :: "json_note list" where
  "two_quarters =
     [\<lparr>jpitch = 60, timing = \<lparr>jbeat = 0, jduration = 1\<rparr>, jvelocity = 80\<rparr>,
      \<lparr>jpitch = 60, timing = \<lparr>jbeat = 1, jduration = 1\<rparr>, jvelocity = 80\<rparr>]"

text \<open>A state with two notes in the output and an open tie on the first, and a third note
  (address 2) that continues it.\<close>

definition c4_note :: "rat \<Rightarrow> Note" where
  "c4_note b = \<lparr>pitch = 60, beat = b, duration = 1, velocity = 80, voice = ''1'', staff = 1\<rparr>"

definition tie_state :: converter where
  "tie_state = init\<lparr>current_beat := 1, out_notes := [0, 1],
                     active_ties := [(60, ''1'', 1) \<mapsto> 0],
                     voice_beats := [(''1_1'', 1)],
                     heap := [c4_note 0, (c4_note 0)\<lparr>pitch := 64\<rparr>, c4_note 1]\<rparr>"

definition tie_stop_elem :: note_elem where
  "tie_stop_elem = (quarter_c4 None None)\<lparr>ne_tie_stop := True\<rparr>"

definition no_duration_elem :: note_elem where
  "no_duration_elem = (quarter_c4 None None)\<lparr>ne_duration := None\<rparr>"

text \<open>The cursor a voice has, or is about to be seeded with.\<close>

definition cursor :: "converter \<Rightarrow> string \<Rightarrow> rat" where
  "cursor s vk = (case map_of (voice_beats s) vk of None \<Rightarrow> current_beat s | Some b \<Rightarrow> b)"

definition tie_start_elem :: note_elem where
  "tie_start_elem = (quarter_c4 None None)\<lparr>ne_tie_start := True\<rparr>"

definition tie_both_elem :: note_elem where
  "tie_both_elem = (quarter_c4 None None)\<lparr>ne_tie_stop := True, ne_tie_start := True\<rparr>"


text \<open>
  Documents whose note durations are positive, whose forward durations are not negative
  and whose declared divisions lie between 1 and 10000.
\<close>

definition wf_note_elem :: "note_elem \<Rightarrow> bool" where
  "wf_note_elem e = (case ne_duration e of None \<Rightarrow> True | Some d \<Rightarrow> 0 < d)"

fun wf_elem :: "elem \<Rightarrow> bool" where
  "wf_elem (Attributes dv) = (case dv of None \<Rightarrow> True | Some n \<Rightarrow> 0 < n \<and> n \<le> 10000)"
| "wf_elem (NoteElem e) = wf_note_elem e"
| "wf_elem (Backup du) = True"
| "wf_elem (Forward du) = (case du of None \<Rightarrow> True | Some d \<Rightarrow> 0 \<le> d)"
| "wf_elem OtherElem = True"

definition wf_document :: "document \<Rightarrow> bool" where
  "wf_document doc = list_all (list_all (list_all wf_elem)) (parts doc)"

text \<open>
  The invariant of the conversion: positive divisions up to 10000, non-negative cursors
  and chord anchor, every Note object with a non-negative beat and a duration of at least
  the quantizer's tolerance, and every output address inside the store.
\<close>

definition conv_inv :: "converter \<Rightarrow> bool" where
  "conv_inv s \<longleftrightarrow> 0 < divisions s \<and> divisions s \<le> 10000 \<and> 0 \<le> current_beat s
     \<and> 0 \<le> chord_start_beat s
     \<and> (\<forall>b \<in> snd ` set (voice_beats s). 0 \<le> b)
     \<and> (\<forall>n \<in> set (heap s). 0 \<le> beat n \<and> 1 / 10000 \<le> duration n)
     \<and> (\<forall>a \<in> set (out_notes s). a < length (heap s))"

definition zero_duration_doc :: document where
  "zero_duration_doc = \<lparr>work_title = None,
     parts = [ [ [Attributes (Some 24), NoteElem ((quarter_c4 None None)\<lparr>ne_duration := Some 0\<rparr>)] ] ]\<rparr>"

definition two_quarters_doc :: document where
  "two_quarters_doc = \<lparr>work_title = None,
     parts = [ [ [Attributes (Some 24), NoteElem (quarter_c4 None None), NoteElem (quarter_c4 None None)] ] ]\<rparr>"

definition tie_leak_doc :: document where
  "tie_leak_doc = \<lparr>work_title = None,
     parts = [ [ [Attributes (Some 24), NoteElem tie_start_elem] ], [ [NoteElem tie_stop_elem] ] ]\<rparr>"

definition tie_stop_only_doc :: document where
  "tie_stop_only_doc = \<lparr>work_title = None,
     parts = [ [ [Attributes (Some 24)] ], [ [NoteElem tie_stop_elem] ] ]\<rparr>"

definition bad_step_elem :: note_elem where
  "bad_step_elem = (quarter_c4 None None)
     \<lparr>ne_pitch := Some \<lparr>step = Some ''H'', alter = None, octave = Some 4\<rparr>\<rparr>"

definition bad_step_doc :: document where
  "bad_step_doc = \<lparr>work_title = None,
     parts = [ [ [Attributes (Some 24), NoteElem (quarter_c4 None None), NoteElem bad_step_elem] ] ]\<rparr>"

text \<open>Two quarter notes in voice 1, a backup of the whole elapsed duration, and a
  chord-flagged note as the first note of voice 2.\<close>

definition chord_e4_voice2 :: note_elem where
  "chord_e4_voice2 = \<lparr>ne_voice = Some ''2'', ne_staff = None, ne_duration = Some 24,
     ne_rest = False, ne_pitch = Some \<lparr>step = Some ''E'', alter = None, octave = Some 4\<rparr>,
     ne_chord = True, ne_tie_stop = False, ne_tie_start = False\<rparr>"

definition chord_after_backup :: measure where
  "chord_after_backup = [Attributes (Some 24), NoteElem (quarter_c4 None None),
     NoteElem (quarter_c4 None None), Backup (Some 48), NoteElem chord_e4_voice2]"

section \<open>Properties of the quantizer\<close>

lemma py_round_of_int: "py_round (of_int j) = j"
  by (simp add: py_round_def)

lemma int_close_zero: "\<bar>(of_int n :: rat)\<bar> < 1 \<Longrightarrow> n = 0"
  by (metis of_int_abs of_int_less_1_iff zabs_less_one_iff)

lemma near_grid_eq:
  assumes "\<bar>of_int j / 4 - (of_int k :: rat) / of_int c\<bar> < 1 / 10000" and "c = 1 \<or> c = 2 \<or> c = 4"
  shows "of_int k / of_int c = (of_int j / 4 :: rat)"
proof -
  obtain m :: int where m: "m * c = 4" and cpos: "0 < c"
    using assms(2) by (auto intro: that[of 4] that[of 2] that[of 1])
  have eq: "of_int j / 4 - (of_int k :: rat) / of_int c = of_int (j - m * k) / 4"
    using m cpos
    by (auto simp: field_simps) (metis (no_types) of_int_mult of_int_numeral)+
  have "\<bar>(of_int (j - m * k) :: rat)\<bar> < 1"
    using assms(1) unfolding eq by simp
  then have "j = m * k" using int_close_zero by fastforce
  then show ?thesis using eq by simp
qed

lemma round_beat_quarter_grid: "round_beat (of_int j / 4) = of_int j / 4"
proof -
  let ?y = "of_int j / 4 :: rat"
  have b1: "\<bar>?y - of_int (py_round ?y)\<bar> < 1 / 10000 \<Longrightarrow> of_int (py_round ?y) = ?y"
    using near_grid_eq[of j "py_round ?y" 1] by simp
  have b2: "\<bar>?y - of_int (py_round (?y * 2)) / 2\<bar> < 1 / 10000 \<Longrightarrow> of_int (py_round (?y * 2)) / 2 = ?y"
    using near_grid_eq[of j "py_round (?y * 2)" 2] by simp
  have b3: "of_int (py_round (?y * 4)) / 4 = ?y"
    using py_round_of_int[of j] by simp
  show ?thesis
  proof (cases "\<bar>?y - of_int (py_round ?y)\<bar> < 1 / 10000")
    case True
    then show ?thesis using b1 by (simp only: round_beat_def Let_def if_True)
  next
    case n1: False
    show ?thesis
    proof (cases "\<bar>?y - of_int (py_round (?y * 2)) / 2\<bar> < 1 / 10000")
      case True
      then show ?thesis using n1 b2 by (simp only: round_beat_def Let_def if_True if_False)
    next
      case False
      then show ?thesis using n1 b3 by (simp only: round_beat_def Let_def if_True if_False if_cancel)
    qed
  qed
qed

lemma round_beat_cases:
  "(\<exists>j. round_beat x = of_int j / 4) \<or> round_beat x = x"
proof -
  have 1: "of_int (py_round x) = (of_int (4 * py_round x) / 4 :: rat)" by simp
  have 2: "of_int (py_round (x * 2)) / 2 = (of_int (2 * py_round (x * 2)) / 4 :: rat)" by simp
  show ?thesis unfolding round_beat_def Let_def
    using 1 2 by (metis (no_types))
qed

text \<open>
  C7: the beat quantizer is idempotent: quantizing a quantized value returns it unchanged,
  for every value.
\<close>

theorem round_beat_idempotent: "round_beat (round_beat x) = round_beat x"
proof -
  from round_beat_cases[of x] show ?thesis
  proof
    assume "\<exists>j. round_beat x = of_int j / 4"
    then obtain j where "round_beat x = of_int j / 4" ..
    then show ?thesis by (simp only: round_beat_quarter_grid)
  next
    assume "round_beat x = x"
    then show ?thesis by (simp only:)
  qed
qed


section \<open>The end-to-end example\<close>

lemmas conv_defs = convert_file_def reset_def process_part_def process_measure_def process_note_def
      process_note_element_def process_tie_def duration_to_beats_def seed_voice_def
      voice_beat_def pitch_to_midi_def note_map_def to_json_def round_beat_def py_round_def Let_def
      elem_voice_def elem_staff_def

text \<open>
  C1: with divisions declared as 24, two sequential quarter notes C4 (duration 24 each, no
  alteration, no chord, no tie), in one measure or in two, convert to exactly the two notes
  of pitch 60, velocity 80 and duration 1 at beats 0 and 1, in that order; whatever the
  voice and staff of the two notes, the title and the state the converter starts from.
\<close>

theorem two_quarter_notes_example:
  "map_sum id (\<lambda>r. song_notes (snd r))
     (convert_file s \<lparr>work_title = t,
        parts = [ [ [Attributes (Some 24), NoteElem (quarter_c4 v st), NoteElem (quarter_c4 v st)] ] ]\<rparr>)
     = Inr two_quarters
   \<and> map_sum id (\<lambda>r. song_notes (snd r))
     (convert_file s \<lparr>work_title = t,
        parts = [ [ [Attributes (Some 24), NoteElem (quarter_c4 v st)], [NoteElem (quarter_c4 v st)] ] ]\<rparr>)
     = Inr two_quarters"
  by (simp add: conv_defs quarter_c4_def two_quarters_def)

section \<open>The pitch resolver\<close>

lemma note_map_dom: "dom note_map = {''C'', ''D'', ''E'', ''F'', ''G'', ''A'', ''B''}"
  by (simp add: note_map_def) blast

section \<open>Measure extraction\<close>

lemma extract_loop_eq:
  "extract_loop sb eb ns acc =
     acc @ map (\<lambda>n. n\<lparr>timing := (timing n)\<lparr>jbeat := jbeat (timing n) - of_int sb\<rparr>\<rparr>)
             (filter (\<lambda>n. of_int sb \<le> jbeat (timing n) \<and> jbeat (timing n) < of_int eb) ns)"
  by (induction ns arbitrary: acc) (simp_all add: Let_def)

text \<open>
  C9: the extracted notes are exactly the notes whose beat lies in
  [(start_measure - 1) * beats_per_measure, end_measure * beats_per_measure), in their
  order, each with the range start subtracted from its beat and every other field as it
  was.
\<close>

theorem extract_measures_notes:
  "song_notes (extract_measures self start_measure end_measure beats_per_measure) =
     map (\<lambda>n. n\<lparr>timing := (timing n)\<lparr>jbeat := jbeat (timing n)
                                         - of_int ((start_measure - 1) * beats_per_measure)\<rparr>\<rparr>)
       (filter (\<lambda>n. of_int ((start_measure - 1) * beats_per_measure) \<le> jbeat (timing n)
                    \<and> jbeat (timing n) < of_int (end_measure * beats_per_measure))
          (song_notes self))"
  by (simp add: extract_measures_def extract_loop_eq Let_def)

section \<open>The tie merger\<close>

text \<open>
  C10: when a note with a tie-stop marker matches an open tie entry, the anchor note gets
  its duration increased by the note's duration and keeps its pitch, beat, voice, staff
  and velocity; no other Note object changes, the output list is the same, and the
  continuation note is not to be added.
\<close>

theorem process_tie_frame:
  assumes "ne_tie_stop e"
    and "active_ties s (pitch (heap s ! a), voice (heap s ! a), staff (heap s ! a)) = Some t"
    and "t < length (heap s)"
  shows "snd (process_tie s e a) = False
    \<and> out_notes (fst (process_tie s e a)) = out_notes s
    \<and> length (heap (fst (process_tie s e a))) = length (heap s)
    \<and> duration (heap (fst (process_tie s e a)) ! t) = duration (heap s ! t) + duration (heap s ! a)
    \<and> pitch (heap (fst (process_tie s e a)) ! t) = pitch (heap s ! t)
    \<and> beat (heap (fst (process_tie s e a)) ! t) = beat (heap s ! t)
    \<and> voice (heap (fst (process_tie s e a)) ! t) = voice (heap s ! t)
    \<and> staff (heap (fst (process_tie s e a)) ! t) = staff (heap s ! t)
    \<and> velocity (heap (fst (process_tie s e a)) ! t) = velocity (heap s ! t)
    \<and> (\<forall>i. i \<noteq> t \<longrightarrow> heap (fst (process_tie s e a)) ! i = heap s ! i)"
  using assms by (simp add: process_tie_def Let_def)


theorem process_tie_frame_witness:
  "ne_tie_stop tie_stop_elem
   \<and> active_ties tie_state (pitch (heap tie_state ! 2), voice (heap tie_state ! 2),
        staff (heap tie_state ! 2)) = Some 0
   \<and> 0 < length (heap tie_state)
   \<and> duration (heap (fst (process_tie tie_state tie_stop_elem 2)) ! 0) = 2
   \<and> beat (heap (fst (process_tie tie_state tie_stop_elem 2)) ! 0) = 0
   \<and> heap (fst (process_tie tie_state tie_stop_elem 2)) ! 1 = heap tie_state ! 1
   \<and> out_notes (fst (process_tie tie_state tie_stop_elem 2)) = [0, 1]"
proof -
  have h1: "ne_tie_stop tie_stop_elem"
    by (simp add: tie_stop_elem_def)
  have h2: "active_ties tie_state (pitch (heap tie_state ! 2), voice (heap tie_state ! 2),
        staff (heap tie_state ! 2)) = Some 0"
    by (simp add: tie_state_def c4_note_def)
  have h3: "0 < length (heap tie_state)"
    by (simp add: tie_state_def)
  show ?thesis
    using h1 h2 h3 process_tie_frame [OF h1 h2 h3]
    by (simp add: tie_state_def c4_note_def)
qed

section \<open>Notes without a duration\<close>

lemma voice_beat_seed:
  "voice_beat (seed_voice s vk) vk =
     Inr (case map_of (voice_beats s) vk of None \<Rightarrow> current_beat s | Some b \<Rightarrow> b)"
  by (simp add: voice_beat_def seed_voice_def update_conv' split: option.splits)

lemma max_values_nonempty: "vb \<noteq> [] \<Longrightarrow> \<exists>m. max_values vb = Inr m"
  by (cases vb) auto

lemma seed_voice_nonempty: "voice_beats (seed_voice s vk) \<noteq> []"
  by (auto simp: seed_voice_def split: option.splits)

lemma seed_voice_map_of:
  "map_of (voice_beats (seed_voice s vk)) k =
     (if k = vk \<and> map_of (voice_beats s) vk = None then Some (current_beat s)
      else map_of (voice_beats s) k)"
  by (auto simp: seed_voice_def update_conv' split: option.splits)

text \<open>
  C4, as amended: processing a note element that has no duration child always succeeds,
  emits no Note and changes no Note object, no tie entry and no existing voice cursor; a
  voice not seen before gets a cursor seeded at the part-wide cursor. For a chord-flagged
  element the part-wide cursor and the measure's longest advance are unchanged; for any
  other element the part-wide cursor becomes the maximum of the voice cursors and the
  longest advance is raised to its distance from the measure start if that is larger.
\<close>

theorem no_duration_note:
  assumes "ne_duration e = None"
  shows "\<exists>s' md'. process_note ms s md e = Inr (s', md')
     \<and> out_notes s' = out_notes s \<and> heap s' = heap s \<and> active_ties s' = active_ties s
     \<and> divisions s' = divisions s
     \<and> (\<forall>k. map_of (voice_beats s') k =
           (if k = voice_key (elem_voice e) (elem_staff e)
                 \<and> map_of (voice_beats s) k = None
            then Some (current_beat s) else map_of (voice_beats s) k))
     \<and> (ne_chord e \<longrightarrow> current_beat s' = current_beat s \<and> md' = md)
     \<and> (\<not> ne_chord e \<longrightarrow> max_values (voice_beats s') = Inr (current_beat s')
                          \<and> md' = max md (current_beat s' - ms))"
proof -
  let ?vk = "voice_key (elem_voice e) (elem_staff e)"
  let ?s1 = "seed_voice s ?vk"
  obtain b where mb: "map_of (voice_beats ?s1) ?vk = Some b"
    by (cases "map_of (voice_beats s) ?vk") (simp_all add: seed_voice_map_of)
  then have b: "voice_beat ?s1 ?vk = Inr b"
    by (simp add: voice_beat_def)
  have upd: "AList.update ?vk (b + 0) (voice_beats ?s1) = voice_beats ?s1"
    using mb by (simp add: update_triv)
  obtain m where m: "max_values (voice_beats ?s1) = Inr m"
    using max_values_nonempty[OF seed_voice_nonempty] by blast
  have frame: "out_notes ?s1 = out_notes s" "heap ?s1 = heap s" "active_ties ?s1 = active_ties s"
    "divisions ?s1 = divisions s" "current_beat ?s1 = current_beat s"
    by (auto simp: seed_voice_def split: option.splits)
  show ?thesis
  proof (cases "ne_chord e")
    case True
    then have "process_note ms s md e = Inr (?s1, md)"
      using assms by (simp add: process_note_def process_note_element_def Let_def)
    then show ?thesis using True frame seed_voice_map_of by auto
  next
    case False
    then have "process_note ms s md e =
        Inr (?s1\<lparr>chord_start_beat := b, current_beat := m\<rparr>, max md (m - ms))"
      using assms b m upd
      by (simp add: process_note_def process_note_element_def Let_def voice_beat_def)
    then show ?thesis using False frame seed_voice_map_of m by auto
  qed
qed


theorem no_duration_note_witness:
  "ne_duration no_duration_elem = None
   \<and> (\<exists>s' md'. process_note 0 tie_state 1 no_duration_elem = Inr (s', md')
         \<and> out_notes s' = out_notes tie_state \<and> heap s' = heap tie_state
         \<and> current_beat s' = 1 \<and> md' = 1)"
proof -
  have h: "ne_duration no_duration_elem = None"
    by (simp add: no_duration_elem_def)
  have c: "\<not> ne_chord no_duration_elem"
    by (simp add: no_duration_elem_def quarter_c4_def)
  have k: "voice_key (elem_voice no_duration_elem) (elem_staff no_duration_elem) = ''1_1''"
    by (simp add: no_duration_elem_def quarter_c4_def voice_key_def elem_voice_def
        elem_staff_def str_int_def str_nat.simps)
  have v: "voice_beats tie_state = [(''1_1'', 1)]"
    by (simp add: tie_state_def)
  from no_duration_note [OF h, of 0 tie_state 1] obtain s' md' where
    r: "process_note 0 tie_state 1 no_duration_elem = Inr (s', md')"
      "out_notes s' = out_notes tie_state" "heap s' = heap tie_state"
      "\<forall>k. map_of (voice_beats s') k =
           (if k = ''1_1'' \<and> map_of (voice_beats tie_state) k = None
            then Some (current_beat tie_state) else map_of (voice_beats tie_state) k)"
      "max_values (voice_beats s') = Inr (current_beat s')"
      "md' = max 1 (current_beat s' - 0)"
    using c k by auto
  show ?thesis
    using h r(1) r(2) r(3) by (simp add: process_note_def process_note_element_def Let_def
        seed_voice_def voice_beat_def no_duration_elem_def quarter_c4_def tie_state_def init_def
        voice_key_def elem_voice_def elem_staff_def str_int_def str_nat.simps)
qed

text \<open>
  The claim as stated fails: after a quarter note and a backup the part-wide cursor is 0,
  and a following note element without duration moves it to 1.
\<close>

theorem no_duration_note_counterexample:
  "map_sum id (current_beat \<circ> fst)
     (process_elems 0 (init, 0) [NoteElem (quarter_c4 None None), Backup (Some 24)]) = Inr 0
   \<and> map_sum id (current_beat \<circ> fst)
     (process_elems 0 (init, 0)
        [NoteElem (quarter_c4 None None), Backup (Some 24), NoteElem no_duration_elem]) = Inr 1"
  by (simp add: conv_defs quarter_c4_def no_duration_elem_def init_def)

section \<open>Processing a pitched note\<close>

lemmas elem_defs = quarter_c4_def tie_start_elem_def tie_both_elem_def tie_stop_elem_def
  no_duration_elem_def

lemma voice_key_default: "voice_key ''1'' 1 = ''1_1''" "voice_key ''2'' 1 = ''2_1''"
  by (simp_all add: voice_key_def str_int_def str_nat.simps)

lemma seed_voice_cursor: "map_of (voice_beats (seed_voice s vk)) vk = Some (cursor s vk)"
  by (simp add: seed_voice_map_of cursor_def split: option.splits)

lemma seed_voice_fields [simp]:
  "divisions (seed_voice s vk) = divisions s"
  "current_beat (seed_voice s vk) = current_beat s"
  "out_notes (seed_voice s vk) = out_notes s"
  "active_ties (seed_voice s vk) = active_ties s"
  "chord_start_beat (seed_voice s vk) = chord_start_beat s"
  "heap (seed_voice s vk) = heap s"
  by (simp_all add: seed_voice_def split: option.splits)

lemma seed_voice_seeded: "map_of (voice_beats s) vk = Some b \<Longrightarrow> seed_voice s vk = s"
  by (simp add: seed_voice_def)

lemma process_tie_fields [simp]:
  "divisions (fst (process_tie s e a)) = divisions s"
  "current_beat (fst (process_tie s e a)) = current_beat s"
  "out_notes (fst (process_tie s e a)) = out_notes s"
  "chord_start_beat (fst (process_tie s e a)) = chord_start_beat s"
  "voice_beats (fst (process_tie s e a)) = voice_beats s"
  "length (heap (fst (process_tie s e a))) = length (heap s)"
  by (simp_all add: process_tie_def Let_def split: option.splits)

lemma process_note_pitched:
  assumes div: "divisions s \<noteq> 0"
    and dur: "ne_duration e = Some dn"
    and norest: "\<not> ne_rest e"
    and pit: "ne_pitch e = Some p" "step p = Some stp" "octave p = Some oct"
      "pitch_to_midi stp (case alter p of None \<Rightarrow> 0 | Some a \<Rightarrow> a) oct = Inr mp"
    and vk: "vk = voice_key (elem_voice e) (elem_staff e)"
    and n: "n = \<lparr>pitch = mp, beat = (if ne_chord e then chord_start_beat s else cursor s vk),
               duration = of_int dn / of_int (divisions s), velocity = 80,
               voice = elem_voice e, staff = elem_staff e\<rparr>"
    and s3: "s3 = (seed_voice s vk)\<lparr>chord_start_beat :=
                     (if ne_chord e then chord_start_beat s else cursor s vk),
                   heap := heap s @ [n]\<rparr>"
    and s4: "s4 = (if snd (process_tie s3 e (length (heap s)))
                   then (fst (process_tie s3 e (length (heap s))))\<lparr>out_notes := out_notes s @ [length (heap s)]\<rparr>
                   else fst (process_tie s3 e (length (heap s))))"
  shows "process_note ms s md e =
     (if ne_chord e then Inr (s4, md)
      else (case max_values (AList.update vk (cursor s vk + of_int dn / of_int (divisions s))
                               (voice_beats (seed_voice s vk))) of
              Inl err \<Rightarrow> Inl err
            | Inr m \<Rightarrow>
                Inr (s4\<lparr>voice_beats := AList.update vk (cursor s vk + of_int dn / of_int (divisions s))
                                         (voice_beats (seed_voice s vk)),
                        current_beat := m\<rparr>, max md (m - ms))))"
proof -
  define s1 where "s1 = seed_voice s vk"
  define s2 where "s2 = (if ne_chord e then s1 else s1\<lparr>chord_start_beat := cursor s vk\<rparr>)"
  have m1: "map_of (voice_beats s1) vk = Some (cursor s vk)"
    by (simp add: s1_def seed_voice_cursor)
  have vb1: "voice_beat s1 vk = Inr (cursor s vk)"
    by (simp add: voice_beat_def m1)
  have m2: "map_of (voice_beats s2) vk = Some (cursor s vk)"
    using m1 by (simp add: s2_def)
  have seed2: "seed_voice s2 vk = s2"
    using m2 by (rule seed_voice_seeded)
  have vb2: "voice_beat s2 vk = Inr (cursor s vk)"
    by (simp add: voice_beat_def m2)
  have f2: "divisions s2 = divisions s" "heap s2 = heap s" "chord_start_beat s2 =
      (if ne_chord e then chord_start_beat s else cursor s vk)" "voice_beats s2 = voice_beats s1"
    by (simp_all add: s2_def s1_def)
  define n0 where "n0 = \<lparr>pitch = mp, beat = cursor s vk,
               duration = of_int dn / of_int (divisions s), velocity = 80,
               voice = elem_voice e, staff = elem_staff e\<rparr>"
  have pne: "process_note_element s2 e = Inr (s2\<lparr>heap := heap s @ [n0]\<rparr>, Some (length (heap s)))"
    using div dur norest pit vb2 seed2 f2
    by (simp add: process_note_element_def duration_to_beats_def Let_def vk[symmetric] n0_def)
  have e3: "s2\<lparr>heap := heap s @ [if ne_chord e then n0\<lparr>beat := chord_start_beat s2\<rparr> else n0]\<rparr> = s3"
    by (simp add: s3 s2_def s1_def n n0_def)
  obtain x b where pt: "process_tie s3 e (length (heap s)) = (x, b)"
    by (cases "process_tie s3 e (length (heap s))")
  have x: "x = fst (process_tie s3 e (length (heap s)))"
    by (simp add: pt)
  have xf: "voice_beats x = voice_beats s1" "out_notes x = out_notes s"
    by (simp_all add: x s3 s1_def)
  have s4': "s4 = (if b then x\<lparr>out_notes := out_notes s @ [length (heap s)]\<rparr> else x)"
    by (simp add: s4 pt)
  have vbs4: "voice_beats s4 = voice_beats s1"
    by (simp add: s4' xf)
  have vb4: "voice_beat s4 vk = Inr (cursor s vk)"
    using m1 by (simp add: voice_beat_def vbs4)
  have s4'': "(if b then x\<lparr>out_notes := out_notes x @ [length (heap s)]\<rparr> else x) = s4"
    by (simp add: s4' xf)
  show ?thesis
  proof (cases "ne_chord e")
    case True
    then have "s2\<lparr>heap := heap s @ [n0\<lparr>beat := chord_start_beat s2\<rparr>]\<rparr> = s3"
      using e3 by simp
    moreover have "s1 = s2"
      using True by (simp add: s2_def)
    ultimately show ?thesis
      using True div
      by (simp add: process_note_def Let_def vk[symmetric] s1_def[symmetric] dur
          duration_to_beats_def pne pt s4'')
  next
    case False
    then have e3': "s2\<lparr>heap := heap s @ [n0]\<rparr> = s3"
      using e3 by simp
    have s2': "s1\<lparr>chord_start_beat := cursor s vk\<rparr> = s2"
      using False by (simp add: s2_def)
    show ?thesis
      using False div
      by (simp add: process_note_def Let_def vk[symmetric] s1_def[symmetric] dur
          duration_to_beats_def vb1 s2' pne e3' pt s4'' vb4 vbs4 split: sum.splits)
  qed
qed


lemma nth_list_update_any: "(xs[t := y]) ! i = (if i = t \<and> t < length xs then y else xs ! i)"
  by (cases "t < length xs") (auto simp: nth_list_update list_update_beyond)

lemma process_tie_keeps:
  "beat (heap (fst (process_tie s e a)) ! i) = beat (heap s ! i)"
  "pitch (heap (fst (process_tie s e a)) ! i) = pitch (heap s ! i)"
  "voice (heap (fst (process_tie s e a)) ! i) = voice (heap s ! i)"
  "staff (heap (fst (process_tie s e a)) ! i) = staff (heap s ! i)"
  "velocity (heap (fst (process_tie s e a)) ! i) = velocity (heap s ! i)"
  by (simp_all add: process_tie_def Let_def nth_list_update_any split: option.splits)



lemma process_tie_add_iff:
  "snd (process_tie s e a) \<longleftrightarrow>
     \<not> (ne_tie_stop e \<and> active_ties s (pitch (heap s ! a), voice (heap s ! a), staff (heap s ! a)) \<noteq> None)"
  by (auto simp: process_tie_def Let_def split: option.splits)


section \<open>Backup and a new voice\<close>

text \<open>
  C6, as amended: a backup element (with a duration, whatever its value) resets the
  part-wide cursor to the measure's starting beat, and the first note of a voice not yet
  seen in the part that follows it, when it is not chord-flagged, is created with that beat
  as its onset: the new voice's cursor is seeded from the rewound cursor and then advanced
  by the note's duration. The note is appended to the output unless it is merged into an
  open tie.
\<close>

theorem backup_then_new_voice:
  assumes div: "divisions s \<noteq> 0"
    and new: "map_of (voice_beats s) (voice_key (elem_voice e) (elem_staff e)) = None"
    and nochord: "\<not> ne_chord e"
    and dur: "ne_duration e = Some dn"
    and norest: "\<not> ne_rest e"
    and pit: "ne_pitch e = Some p" "step p = Some stp" "octave p = Some oct"
      "pitch_to_midi stp (case alter p of None \<Rightarrow> 0 | Some a \<Rightarrow> a) oct = Inr mp"
  shows "\<exists>s' md'. process_elems ms (s, md) [Backup (Some d), NoteElem e] = Inr (s', md')
     \<and> length (heap s') = Suc (length (heap s))
     \<and> beat (heap s' ! length (heap s)) = ms
     \<and> pitch (heap s' ! length (heap s)) = mp
     \<and> map_of (voice_beats s') (voice_key (elem_voice e) (elem_staff e))
         = Some (ms + of_int dn / of_int (divisions s))
     \<and> (out_notes s' = out_notes s @ [length (heap s)]
          \<or> ne_tie_stop e \<and> active_ties s (mp, elem_voice e, elem_staff e) \<noteq> None
             \<and> out_notes s' = out_notes s)"
proof -
  define vk where "vk = voice_key (elem_voice e) (elem_staff e)"
  define s0 where "s0 = s\<lparr>current_beat := ms\<rparr>"
  define db where "db = (of_int dn / of_int (divisions s) :: rat)"
  define n where "n = \<lparr>pitch = mp, beat = (if ne_chord e then chord_start_beat s0 else cursor s0 vk),
               duration = of_int dn / of_int (divisions s0), velocity = 80,
               voice = elem_voice e, staff = elem_staff e\<rparr>"
  define s3 where "s3 = (seed_voice s0 vk)\<lparr>chord_start_beat :=
                     (if ne_chord e then chord_start_beat s0 else cursor s0 vk),
                   heap := heap s0 @ [n]\<rparr>"
  define s4 where "s4 = (if snd (process_tie s3 e (length (heap s0)))
                   then (fst (process_tie s3 e (length (heap s0))))\<lparr>out_notes := out_notes s0 @ [length (heap s0)]\<rparr>
                   else fst (process_tie s3 e (length (heap s0))))"
  have cur: "cursor s0 vk = ms"
    using new by (simp add: cursor_def s0_def vk_def)
  have f0: "divisions s0 = divisions s" "heap s0 = heap s" "out_notes s0 = out_notes s"
    "active_ties s0 = active_ties s"
    by (simp_all add: s0_def)
  have div0: "divisions s0 \<noteq> 0"
    using div by (simp add: f0)
  note pn = process_note_pitched [OF div0 dur norest pit vk_def n_def s3_def s4_def, of ms md]
  define vb where "vb = AList.update vk (ms + db) (voice_beats (seed_voice s0 vk))"
  have "vb \<noteq> []"
    unfolding vb_def using seed_voice_nonempty[of s0 vk] by (cases "voice_beats (seed_voice s0 vk)") auto
  then obtain m where m: "max_values vb = Inr m"
    using max_values_nonempty by blast
  have res: "process_note ms s0 md e = Inr (s4\<lparr>voice_beats := vb, current_beat := m\<rparr>, max md (m - ms))"
    using pn nochord m by (simp add: cur f0 vb_def db_def)
  have step: "process_elems ms (s, md) [Backup (Some d), NoteElem e]
      = Inr (s4\<lparr>voice_beats := vb, current_beat := m\<rparr>, max md (m - ms))"
    using div res by (simp add: duration_to_beats_def s0_def)
  have h3: "heap s3 = heap s @ [n]"
    by (simp add: s3_def f0)
  have len: "length (heap s4) = Suc (length (heap s))"
    by (simp add: s4_def h3 f0)
  have bt: "beat (heap s4 ! length (heap s)) = ms" "pitch (heap s4 ! length (heap s)) = mp"
    using nochord by (simp_all add: s4_def process_tie_keeps h3 f0 n_def cur)
  have mo: "map_of vb vk = Some (ms + db)"
    by (simp add: vb_def update_conv')
  have key: "(pitch (heap s3 ! length (heap s)), voice (heap s3 ! length (heap s)),
      staff (heap s3 ! length (heap s))) = (mp, elem_voice e, elem_staff e)"
    by (simp add: h3 n_def)
  have at3: "active_ties s3 = active_ties s"
    by (simp add: s3_def f0)
  have outs: "out_notes s4 = out_notes s @ [length (heap s)]
          \<or> ne_tie_stop e \<and> active_ties s (mp, elem_voice e, elem_staff e) \<noteq> None
             \<and> out_notes s4 = out_notes s"
    using process_tie_add_iff[of s3 e "length (heap s)"] key
    by (auto simp: s4_def f0 at3 s3_def)
  show ?thesis
    using step len bt mo outs by (simp add: vk_def db_def)
qed


theorem backup_then_new_voice_witness:
  "divisions tie_state \<noteq> 0
   \<and> map_of (voice_beats tie_state) (voice_key ''2'' 1) = None
   \<and> \<not> ne_chord (quarter_c4 (Some ''2'') None)
   \<and> (\<exists>s' md'. process_elems 0 (tie_state, 1)
          [Backup (Some 24), NoteElem (quarter_c4 (Some ''2'') None)] = Inr (s', md')
        \<and> beat (heap s' ! 3) = 0 \<and> pitch (heap s' ! 3) = 60)"
proof -
  have d: "divisions tie_state \<noteq> 0"
    by (simp add: tie_state_def init_def)
  have n: "map_of (voice_beats tie_state) (voice_key ''2'' 1) = None"
    by (simp add: tie_state_def voice_key_default)
  have p: "pitch_to_midi ''C'' (case None of None \<Rightarrow> 0 | Some a \<Rightarrow> a) 4 = Inr 60"
    by (simp add: pitch_to_midi_def note_map_def)
  have l: "length (heap tie_state) = 3"
    by (simp add: tie_state_def)
  from backup_then_new_voice [of tie_state "quarter_c4 (Some ''2'') None" 24
      "\<lparr>step = Some ''C'', alter = None, octave = Some 4\<rparr>" "''C''" 4 60 0 1 24]
  show ?thesis
    using d n p l
    by (simp add: elem_defs elem_voice_def elem_staff_def) blast
qed


text \<open>
  The claim as stated fails for a chord-flagged note: after two quarter notes and a backup of
  the whole elapsed duration, a chord-flagged first note of a new voice takes the chord
  anchor, the beat 1 of the last non-chord note, not the measure's starting beat 0.
\<close>

theorem backup_then_new_voice_counterexample:
  "map_sum id (map beat \<circ> heap \<circ> fst) (process_elems 0 (init, 0) chord_after_backup)
     = Inr [0, 1, 1]
   \<and> map_sum id (song_notes \<circ> snd)
       (convert_file init \<lparr>work_title = None, parts = [ [chord_after_backup] ]\<rparr>)
     = Inr [\<lparr>jpitch = 60, timing = \<lparr>jbeat = 0, jduration = 1\<rparr>, jvelocity = 80\<rparr>,
            \<lparr>jpitch = 60, timing = \<lparr>jbeat = 1, jduration = 1\<rparr>, jvelocity = 80\<rparr>,
            \<lparr>jpitch = 64, timing = \<lparr>jbeat = 1, jduration = 1\<rparr>, jvelocity = 80\<rparr>]"
  by (simp add: conv_defs elem_defs chord_e4_voice2_def chord_after_backup_def init_def)

section \<open>Tie pairs\<close>





section \<open>Beats and durations of the output\<close>

lemma py_round_nonneg: "0 \<le> x \<Longrightarrow> 0 \<le> py_round x"
  by (auto simp: py_round_def Let_def)

lemma round_beat_nonneg:
  assumes "0 \<le> x" shows "0 \<le> round_beat x"
proof -
  have "0 \<le> py_round x" "0 \<le> py_round (x * 2)" "0 \<le> py_round (x * 4)"
    using assms by (simp_all add: py_round_nonneg)
  then show ?thesis
    using assms by (simp add: round_beat_def Let_def)
qed

lemma round_beat_pos:
  assumes "1 / 10000 \<le> x" shows "0 < round_beat x"
proof -
  have x: "0 \<le> x" using assms by simp
  have nn: "0 \<le> py_round x" "0 \<le> py_round (x * 2)" "0 \<le> py_round (x * 4)"
    using x by (simp_all add: py_round_nonneg)
  have z: "\<bar>x - of_int k / c\<bar> < 1 / 10000 \<Longrightarrow> 0 \<le> k \<Longrightarrow> 0 < c \<Longrightarrow> 0 < (of_int k / c :: rat)" for k :: int and c :: rat
  proof -
    assume a: "\<bar>x - of_int k / c\<bar> < 1 / 10000" "0 \<le> k" "0 < c"
    have "k \<noteq> 0" using a(1) assms by auto
    then have "0 < k" using a(2) by simp
    then show ?thesis using a(3) by simp
  qed
  show ?thesis
    unfolding round_beat_def Let_def
    using z[of "py_round x" 1] z[of "py_round (x * 2)" 2] z[of "py_round (x * 4)" 4] nn assms
    by (simp split: if_splits)
qed

lemma alist_update_set:
  "(k', v') \<in> set (AList.update k v al) \<Longrightarrow> v' = v \<or> (k', v') \<in> set al"
  by (induction al) (auto split: if_splits)

lemma inv_advance:
  "conv_inv s \<Longrightarrow> 0 \<le> b \<Longrightarrow> conv_inv (s\<lparr>voice_beats := AList.update vk b (voice_beats s)\<rparr>)"
  by (auto simp: conv_inv_def dest!: alist_update_set)

lemma inv_seed: "conv_inv s \<Longrightarrow> conv_inv (seed_voice s vk)"
proof (cases "map_of (voice_beats s) vk")
  case None
  assume i: "conv_inv s"
  then have "0 \<le> current_beat s" by (simp add: conv_inv_def)
  then show ?thesis using None inv_advance[OF i] by (simp add: seed_voice_def)
next
  case (Some b)
  assume "conv_inv s"
  then show ?thesis using Some by (simp add: seed_voice_def)
qed

lemma voice_beat_nonneg: "conv_inv s \<Longrightarrow> voice_beat s vk = Inr b \<Longrightarrow> 0 \<le> b"
  by (auto simp: conv_inv_def voice_beat_def split: option.splits dest!: map_of_SomeD)

lemma inv_chord_start: "conv_inv s \<Longrightarrow> 0 \<le> b \<Longrightarrow> conv_inv (s\<lparr>chord_start_beat := b\<rparr>)"
  by (simp add: conv_inv_def)

lemma inv_current: "conv_inv s \<Longrightarrow> 0 \<le> b \<Longrightarrow> conv_inv (s\<lparr>current_beat := b\<rparr>)"
  by (simp add: conv_inv_def)

lemma inv_append_out: "conv_inv s \<Longrightarrow> a < length (heap s) \<Longrightarrow> conv_inv (s\<lparr>out_notes := out_notes s @ [a]\<rparr>)"
  by (simp add: conv_inv_def)

lemma inv_alloc:
  "conv_inv s \<Longrightarrow> 0 \<le> beat n \<Longrightarrow> 1 / 10000 \<le> duration n \<Longrightarrow> conv_inv (s\<lparr>heap := heap s @ [n]\<rparr>)"
  by (auto simp: conv_inv_def less_Suc_eq)

lemma inv_heap_update:
  "conv_inv s \<Longrightarrow> 0 \<le> beat n \<Longrightarrow> 1 / 10000 \<le> duration n \<Longrightarrow> conv_inv (s\<lparr>heap := (heap s)[a := n]\<rparr>)"
  by (auto simp: conv_inv_def dest!: set_update_subset_insert[THEN subsetD])

lemma max_values_nonneg:
  "max_values vb = Inr m \<Longrightarrow> \<forall>b \<in> snd ` set vb. 0 \<le> b \<Longrightarrow> 0 \<le> (m::rat)"
proof (cases vb)
  case Nil
  assume "max_values vb = Inr m" then show ?thesis using Nil by simp
next
  case (Cons kv kvs)
  assume a: "max_values vb = Inr m" "\<forall>b \<in> snd ` set vb. 0 \<le> b"
  have "v \<le> fold max xs v" for xs :: "rat list" and v
    by (induction xs arbitrary: v) (auto intro: order_trans[OF max.cobounded2])
  then show ?thesis using a Cons by (cases kv) (auto intro: order_trans)
qed


lemma duration_beats_bound:
  assumes "conv_inv s" and "0 < d" and "duration_to_beats s d = Inr db"
  shows "1 / 10000 \<le> db"
proof -
  have dv: "0 < divisions s" "divisions s \<le> 10000"
    using assms(1) by (simp_all add: conv_inv_def)
  have db: "db = of_int d / of_int (divisions s)"
    using assms(3) dv by (simp add: duration_to_beats_def)
  have "(of_int (divisions s) :: rat) \<le> 10000 * of_int d"
  proof -
    have "divisions s \<le> 10000 * d" using dv assms(2) by simp
    then have "(of_int (divisions s) :: rat) \<le> of_int (10000 * d)"
      by (simp only: of_int_le_iff)
    then show ?thesis by simp
  qed
  then show ?thesis
    using dv by (simp add: db field_simps)
qed

lemma inv_pne:
  assumes i: "conv_inv s" and w: "wf_note_elem e" and r: "process_note_element s e = Inr (s', r)"
  shows "conv_inv s' \<and> (\<forall>a. r = Some a \<longrightarrow> a < length (heap s'))"
proof (cases "r")
  case None
  then have "s' = s"
    using r by (auto simp: process_note_element_def Let_def
        split: option.splits sum.splits if_splits)
  then show ?thesis using i None by simp
next
  case (Some a)
  define s1 where "s1 = seed_voice s (voice_key (elem_voice e) (elem_staff e))"
  have i1: "conv_inv s1" using i by (simp add: s1_def inv_seed)
  from r Some obtain d db mp b where
    d: "ne_duration e = Some d" "duration_to_beats s d = Inr db"
    and b: "voice_beat s1 (voice_key (elem_voice e) (elem_staff e)) = Inr b"
    and s': "s' = s1\<lparr>heap := heap s1 @ [\<lparr>pitch = mp, beat = b, duration = db,
                   velocity = 80, voice = elem_voice e, staff = elem_staff e\<rparr>]\<rparr>"
    and a: "a = length (heap s1)"
    by (auto simp: process_note_element_def Let_def s1_def
        split: option.splits sum.splits if_splits)
  have "0 < d" using w d by (simp add: wf_note_elem_def)
  then have "1 / 10000 \<le> db" using duration_beats_bound[OF i _ d(2)] by simp
  moreover have "0 \<le> b" using voice_beat_nonneg[OF i1 b] .
  ultimately have "conv_inv s'" unfolding s' by (intro inv_alloc i1) simp_all
  then show ?thesis using Some a s' by simp
qed

lemma inv_tie:
  assumes i: "conv_inv s" and a: "a < length (heap s)"
  shows "conv_inv (fst (process_tie s e a))"
proof -
  have na: "1 / 10000 \<le> duration (heap s ! a)"
    using i a by (simp add: conv_inv_def)
  have upd: "conv_inv (s\<lparr>heap := (heap s)[t := (heap s ! t)\<lparr>duration := duration (heap s ! t) + duration (heap s ! a)\<rparr>]\<rparr>)" for t
  proof (cases "t < length (heap s)")
    case True
    then have "0 \<le> beat (heap s ! t)" "1 / 10000 \<le> duration (heap s ! t)"
      using i by (simp_all add: conv_inv_def)
    then show ?thesis using na by (intro inv_heap_update i) simp_all
  next
    case False
    then show ?thesis using i by (simp add: list_update_beyond)
  qed
  have at: "conv_inv x \<Longrightarrow> conv_inv (x\<lparr>active_ties := f\<rparr>)" for x f
    by (simp add: conv_inv_def)
  show ?thesis
    using i upd by (auto simp: process_tie_def Let_def split: option.splits intro!: at)
qed

lemma inv_process_note:
  assumes i: "conv_inv s" and w: "wf_note_elem e" and r: "process_note ms s md e = Inr (s', md')"
  shows "conv_inv s'"
proof -
  let ?vk = "voice_key (elem_voice e) (elem_staff e)"
  let ?s1 = "seed_voice s ?vk"
  have i1: "conv_inv ?s1" using i by (simp add: inv_seed)
  note pn = process_note_def Let_def
  obtain db where
    db: "(case ne_duration e of Some d \<Rightarrow> duration_to_beats s d | None \<Rightarrow> Inr 0) = Inr db"
    using r by (cases "case ne_duration e of Some d \<Rightarrow> duration_to_beats s d | None \<Rightarrow> Inr 0")
      (simp_all add: pn)
  obtain s2 where
    s2: "(if \<not> ne_chord e
             then (case voice_beat ?s1 ?vk of
                     Inl err \<Rightarrow> Inl err
                   | Inr b \<Rightarrow> Inr (?s1\<lparr>chord_start_beat := b\<rparr>))
             else Inr ?s1) = Inr s2"
    using r db by (cases "if \<not> ne_chord e
             then (case voice_beat ?s1 ?vk of
                     Inl err \<Rightarrow> Inl err
                   | Inr b \<Rightarrow> Inr (?s1\<lparr>chord_start_beat := b\<rparr>))
             else Inr ?s1") (simp_all add: pn)
  obtain s3 res where pne: "process_note_element s2 e = Inr (s3, res)"
    using r db s2 by (cases "process_note_element s2 e") (auto simp: pn)
  have db0: "0 \<le> db"
  proof (cases "ne_duration e")
    case None
    then show ?thesis using db by simp
  next
    case (Some d)
    then have "0 < d" using w by (simp add: wf_note_elem_def)
    then have "1 / 10000 \<le> db" using duration_beats_bound[OF i, of d db] db Some by simp
    then show ?thesis by simp
  qed
  have i2: "conv_inv s2"
    using s2 i1 by (auto split: if_splits sum.splits intro: inv_chord_start voice_beat_nonneg)
  have i3: "conv_inv s3" and ra: "\<And>a. res = Some a \<Longrightarrow> a < length (heap s3)"
    using inv_pne[OF i2 w pne] by auto
  define s4 where "s4 =
         (case res of
            None \<Rightarrow> s3
          | Some a \<Rightarrow>
              (let s3a = (if ne_chord e
                          then s3\<lparr>heap := (heap s3)[a := (heap s3 ! a)\<lparr>beat := chord_start_beat s3\<rparr>]\<rparr>
                          else s3);
                   (s3b, should_add) = process_tie s3a e a
               in if should_add then s3b\<lparr>out_notes := out_notes s3b @ [a]\<rparr> else s3b))"
  have i4: "conv_inv s4"
  proof (cases res)
    case None
    then show ?thesis using i3 by (simp add: s4_def)
  next
    case (Some a)
    define s3a where "s3a = (if ne_chord e
                          then s3\<lparr>heap := (heap s3)[a := (heap s3 ! a)\<lparr>beat := chord_start_beat s3\<rparr>]\<rparr>
                          else s3)"
    have al: "a < length (heap s3)" using ra Some by simp
    have "0 \<le> chord_start_beat s3" "1 / 10000 \<le> duration (heap s3 ! a)"
      using i3 al by (simp_all add: conv_inv_def)
    then have i3a: "conv_inv s3a"
      unfolding s3a_def using i3 by (auto intro!: inv_heap_update)
    have al': "a < length (heap s3a)" using al by (simp add: s3a_def)
    have it: "conv_inv (fst (process_tie s3a e a))" using inv_tie[OF i3a al'] .
    have "a < length (heap (fst (process_tie s3a e a)))" using al' by simp
    then have "conv_inv ((fst (process_tie s3a e a))\<lparr>out_notes := out_notes (fst (process_tie s3a e a)) @ [a]\<rparr>)"
      using it by (rule inv_append_out[rotated])
    moreover obtain x sa where pt: "process_tie s3a e a = (x, sa)"
      by (cases "process_tie s3a e a")
    ultimately show ?thesis
      using it Some by (cases sa) (simp_all add: s4_def s3a_def[symmetric] Let_def)
  qed
  show ?thesis
  proof (cases "ne_chord e")
    case True
    then have "s' = s4"
      using r db s2 pne by (cases res) (auto simp: pn s4_def)
    then show ?thesis using i4 by simp
  next
    case False
    then obtain b m where b: "voice_beat s4 ?vk = Inr b"
      and m: "max_values (AList.update ?vk (b + db) (voice_beats s4)) = Inr m"
      and s': "s' = s4\<lparr>voice_beats := AList.update ?vk (b + db) (voice_beats s4), current_beat := m\<rparr>"
      using r db s2 pne
      by (cases res) (auto simp: pn s4_def split: sum.splits)
    have "0 \<le> b + db" using voice_beat_nonneg[OF i4 b] db0 by simp
    then have i5: "conv_inv (s4\<lparr>voice_beats := AList.update ?vk (b + db) (voice_beats s4)\<rparr>)"
      using i4 by (intro inv_advance)
    then have "0 \<le> m" using max_values_nonneg[OF m] by (simp add: conv_inv_def)
    then show ?thesis unfolding s' using inv_current[OF i5, of m] by simp
  qed
qed


lemma inv_process_elem:
  assumes i: "conv_inv s" and ms: "0 \<le> ms" and w: "wf_elem el"
    and r: "process_elem ms (s, md) el = Inr (s', md')"
  shows "conv_inv s'"
proof (cases el)
  case (Attributes dv)
  then show ?thesis
    using i w r by (cases dv) (auto simp: conv_inv_def)
next
  case (NoteElem e)
  then show ?thesis
    using i w r inv_process_note[of s e ms md s' md'] by simp
next
  case (Backup du)
  then show ?thesis
    using i ms r by (cases du) (auto simp: inv_current split: sum.splits)
next
  case (Forward du)
  show ?thesis
  proof (cases du)
    case None
    then show ?thesis using Forward i r by simp
  next
    case (Some d)
    then obtain fb where fb: "duration_to_beats s d = Inr fb"
      and s': "s' = s\<lparr>current_beat := current_beat s + fb\<rparr>"
      using Forward r by (auto split: sum.splits)
    have "0 < divisions s" "0 \<le> current_beat s" using i by (simp_all add: conv_inv_def)
    moreover have "0 \<le> d" using w Forward Some by simp
    ultimately have "0 \<le> current_beat s + fb"
      using fb by (auto simp: duration_to_beats_def)
    then show ?thesis unfolding s' using i by (rule inv_current[rotated])
  qed
next
  case OtherElem
  then show ?thesis using i r by simp
qed

lemma inv_process_elems:
  "conv_inv s \<Longrightarrow> 0 \<le> ms \<Longrightarrow> list_all wf_elem els
    \<Longrightarrow> process_elems ms (s, md) els = Inr (s', md') \<Longrightarrow> conv_inv s'"
proof (induction els arbitrary: s md)
  case Nil
  then show ?case by simp
next
  case (Cons el els)
  from Cons.prems(4) obtain s1 md1 where
    st: "process_elem ms (s, md) el = Inr (s1, md1)"
    and rest: "process_elems ms (s1, md1) els = Inr (s', md')"
    by (auto split: sum.splits)
  have "conv_inv s1"
    using inv_process_elem[OF Cons.prems(1,2) _ st] Cons.prems(3) by simp
  then show ?case
    using Cons.IH[OF _ Cons.prems(2) _ rest] Cons.prems(3) by simp
qed

lemma inv_process_measure:
  assumes "conv_inv s" and "list_all wf_elem m" and "process_measure s m = Inr s'"
  shows "conv_inv s'"
proof -
  have ms: "0 \<le> current_beat s" using assms(1) by (simp add: conv_inv_def)
  from assms(3) obtain s1 md where
    r: "process_elems (current_beat s) (s, 0) m = Inr (s1, md)"
    and s': "s' = (if 0 < md then s1\<lparr>current_beat := current_beat s + md\<rparr> else s1)"
    by (auto simp: process_measure_def Let_def split: sum.splits)
  have "conv_inv s1" using inv_process_elems[OF assms(1) ms assms(2) r] .
  then show ?thesis using ms by (auto simp: s' intro: inv_current)
qed

lemma inv_process_measures:
  "conv_inv s \<Longrightarrow> list_all (list_all wf_elem) p \<Longrightarrow> process_measures s p = Inr s'
    \<Longrightarrow> conv_inv s'"
  by (induction p arbitrary: s) (auto split: sum.splits dest: inv_process_measure)

lemma inv_process_part:
  assumes "conv_inv s" and "list_all (list_all wf_elem) p" and "process_part s p = Inr s'"
  shows "conv_inv s'"
proof -
  have "conv_inv (s\<lparr>current_beat := 0, voice_beats := []\<rparr>)"
    using assms(1) by (simp add: conv_inv_def)
  then show ?thesis
    using assms(2,3) unfolding process_part_def by (rule inv_process_measures)
qed

lemma inv_process_parts:
  "conv_inv s \<Longrightarrow> list_all (list_all (list_all wf_elem)) ps \<Longrightarrow> process_parts s ps = Inr s'
    \<Longrightarrow> conv_inv s'"
  by (induction ps arbitrary: s) (auto split: sum.splits dest: inv_process_part)

text \<open>
  C5, as amended: for every document whose note durations are positive, whose forward
  durations are not negative and whose declared divisions lie between 1 and 10000,
  converted by a converter whose divisions lie in that range and whose chord anchor is not
  negative (as for a new converter), every note of a completed conversion has beat \<ge> 0
  and duration > 0.
\<close>

theorem output_beats_durations:
  assumes wf: "wf_document doc"
    and dv: "0 < divisions s" "divisions s \<le> 10000"
    and ch: "0 \<le> chord_start_beat s"
    and r: "convert_file s doc = Inr (s', result)"
  shows "\<forall>n \<in> set (song_notes result). 0 \<le> jbeat (timing n) \<and> 0 < jduration (timing n)"
proof -
  have "conv_inv (reset s)"
    using dv ch by (simp add: conv_inv_def reset_def)
  moreover from r have p: "process_parts (reset s) (parts doc) = Inr s'"
    and res: "song_notes result = sort_key (\<lambda>x. jbeat (timing x))
                               (map (\<lambda>a. to_json (heap s' ! a)) (out_notes s'))"
    by (auto simp: convert_file_def split: sum.splits)
  ultimately have i: "conv_inv s'"
    using wf inv_process_parts unfolding wf_document_def by blast
  show ?thesis
  proof
    fix n assume "n \<in> set (song_notes result)"
    then obtain a where a: "a \<in> set (out_notes s')" and n: "n = to_json (heap s' ! a)"
      unfolding res by auto
    have "heap s' ! a \<in> set (heap s')"
      using i a by (simp add: conv_inv_def)
    then have "0 \<le> beat (heap s' ! a)" "1 / 10000 \<le> duration (heap s' ! a)"
      using i by (simp_all add: conv_inv_def)
    then show "0 \<le> jbeat (timing n) \<and> 0 < jduration (timing n)"
      unfolding n by (simp add: to_json_def round_beat_nonneg round_beat_pos)
  qed
qed

theorem output_beats_durations_witness:
  "wf_document two_quarters_doc \<and> 0 < divisions init \<and> divisions init \<le> 10000
   \<and> 0 \<le> chord_start_beat init
   \<and> (\<exists>s' result. convert_file init two_quarters_doc = Inr (s', result)
        \<and> song_notes result = two_quarters
        \<and> (\<forall>n \<in> set (song_notes result). 0 \<le> jbeat (timing n) \<and> 0 < jduration (timing n)))"
proof -
  have w: "wf_document two_quarters_doc"
    by (simp add: wf_document_def two_quarters_doc_def wf_note_elem_def quarter_c4_def)
  have d: "0 < divisions init" "divisions init \<le> 10000" and c: "0 \<le> chord_start_beat init"
    by (simp_all add: init_def)
  obtain s' result where r: "convert_file init two_quarters_doc = Inr (s', result)"
    and n: "song_notes result = two_quarters"
    by (simp add: conv_defs elem_defs two_quarters_doc_def two_quarters_def init_def)
  show ?thesis
    using w d c r n output_beats_durations [OF w d c r] by blast
qed

text \<open>
  The claim as stated fails: a note element with duration 0 is emitted with duration 0.
\<close>

theorem output_beats_durations_counterexample:
  "map_sum id (song_notes \<circ> snd) (convert_file init zero_duration_doc)
     = Inr [\<lparr>jpitch = 60, timing = \<lparr>jbeat = 0, jduration = 0\<rparr>, jvelocity = 80\<rparr>]"
  by (simp add: conv_defs elem_defs zero_duration_doc_def init_def)


section \<open>Resetting the state\<close>

text \<open>
  C2, as amended: at the start of every top-level conversion the part-wide cursor, the
  output list, the tie table, the voice-cursor map (and with them the Note objects) are
  reset, and at the start of every part the part-wide cursor and the voice cursors are
  reset again: the result of a conversion does not depend on the values these had before
  it, and the processing of a part does not depend on the part-wide cursor or the voice
  cursors left by an earlier part.
\<close>

theorem state_reset:
  "convert_file (s\<lparr>current_beat := cb, out_notes := ns, active_ties := ties,
                   voice_beats := vb, heap := h\<rparr>) doc = convert_file s doc
   \<and> process_part (s\<lparr>current_beat := cb, voice_beats := vb\<rparr>) p = process_part s p"
  by (simp add: convert_file_def reset_def process_part_def)

text \<open>
  The claim as stated fails: the tie table is kept from one part to the next. A tie opened
  and left unclosed in the first part is matched by a tie-stop note of the second part,
  which is merged into the first part's note (one note of duration 2); after a first part
  without the tie-start, the same note of the second part is emitted on its own.
\<close>

theorem state_reset_counterexample:
  "map_sum id (song_notes \<circ> snd) (convert_file init tie_leak_doc)
     = Inr [\<lparr>jpitch = 60, timing = \<lparr>jbeat = 0, jduration = 2\<rparr>, jvelocity = 80\<rparr>]
   \<and> map_sum id (song_notes \<circ> snd) (convert_file init tie_stop_only_doc)
     = Inr [\<lparr>jpitch = 60, timing = \<lparr>jbeat = 0, jduration = 1\<rparr>, jvelocity = 80\<rparr>]"
  by (simp add: conv_defs elem_defs tie_leak_doc_def tie_stop_only_doc_def init_def)

section \<open>Unrecognized pitch letters\<close>

lemma process_note_bad_step:
  assumes bad: "note_map stp = None"
    and div: "divisions s \<noteq> 0"
    and e: "ne_duration e = Some d" "\<not> ne_rest e" "ne_pitch e = Some p"
      "step p = Some stp" "octave p = Some oct"
  shows "process_note ms s md e = Inl (KeyError stp)"
proof -
  let ?vk = "voice_key (elem_voice e) (elem_staff e)"
  let ?s1 = "seed_voice s ?vk"
  have vb: "voice_beat ?s1 ?vk = Inr (cursor s ?vk)"
    by (simp add: voice_beat_def seed_voice_cursor)
  have pm: "pitch_to_midi stp a oct = Inl (KeyError stp)" for a
    using bad by (simp add: pitch_to_midi_def)
  have pne: "divisions x = divisions s \<Longrightarrow> process_note_element x e = Inl (KeyError stp)" for x
    using div e pm by (simp add: process_note_element_def duration_to_beats_def Let_def)
  show ?thesis
    using div e vb pne
    by (simp add: process_note_def duration_to_beats_def Let_def)
qed

text \<open>
  C8: a letter outside C, D, E, F, G, A, B makes pitch resolution fail with the lookup
  error for that letter, and processing a sounding note element with that letter fails
  with the same error (no default value is substituted); for a letter of the table the
  result is the formula's value for every accidental and octave, with no clamping and no
  range check.
\<close>

theorem pitch_to_midi_unrecognized:
  "(stp \<notin> {''C'', ''D'', ''E'', ''F'', ''G'', ''A'', ''B''}
      \<longrightarrow> pitch_to_midi stp alt oct = Inl (KeyError stp)
        \<and> (divisions s \<noteq> 0 \<and> ne_duration e = Some d \<and> \<not> ne_rest e \<and> ne_pitch e = Some p
             \<and> step p = Some stp \<and> octave p = Some oct
            \<longrightarrow> process_note ms s md e = Inl (KeyError stp)))
   \<and> (stp \<in> {''C'', ''D'', ''E'', ''F'', ''G'', ''A'', ''B''}
      \<longrightarrow> (\<exists>off. note_map stp = Some off
             \<and> pitch_to_midi stp alt oct = Inr ((oct + 1) * 12 + off + alt)))"
proof -
  have "stp \<notin> dom note_map \<Longrightarrow> pitch_to_midi stp alt oct = Inl (KeyError stp)"
    by (auto simp: pitch_to_midi_def dom_def)
  moreover have "stp \<in> dom note_map \<Longrightarrow>
      \<exists>off. note_map stp = Some off \<and> pitch_to_midi stp alt oct = Inr ((oct + 1) * 12 + off + alt)"
    by (auto simp: pitch_to_midi_def dom_def)
  moreover have "stp \<notin> dom note_map \<Longrightarrow> divisions s \<noteq> 0 \<and> ne_duration e = Some d \<and> \<not> ne_rest e \<and> ne_pitch e = Some p
             \<and> step p = Some stp \<and> octave p = Some oct
            \<longrightarrow> process_note ms s md e = Inl (KeyError stp)"
    using process_note_bad_step[of stp s e d p oct ms md] by (auto simp: dom_def)
  ultimately show ?thesis unfolding note_map_dom by blast
qed

theorem pitch_to_midi_unrecognized_witness:
  "''H'' \<notin> {''C'', ''D'', ''E'', ''F'', ''G'', ''A'', ''B''}
   \<and> pitch_to_midi ''H'' 0 4 = Inl (KeyError ''H'')
   \<and> divisions init \<noteq> 0 \<and> ne_duration bad_step_elem = Some 24 \<and> \<not> ne_rest bad_step_elem
   \<and> ne_pitch bad_step_elem = Some \<lparr>step = Some ''H'', alter = None, octave = Some 4\<rparr>
   \<and> process_note 0 init 0 bad_step_elem = Inl (KeyError ''H'')
   \<and> map_sum id (song_notes \<circ> snd) (convert_file init bad_step_doc) = Inl (KeyError ''H'')
   \<and> ''G'' \<in> {''C'', ''D'', ''E'', ''F'', ''G'', ''A'', ''B''}
   \<and> pitch_to_midi ''G'' 1 20 = Inr 260"
proof -
  have c: "map_sum id (song_notes \<circ> snd) (convert_file init bad_step_doc) = Inl (KeyError ''H'')"
    by (simp add: conv_defs elem_defs bad_step_doc_def bad_step_elem_def init_def)
  have h: "divisions init \<noteq> 0" "ne_duration bad_step_elem = Some 24" "\<not> ne_rest bad_step_elem"
    "ne_pitch bad_step_elem = Some \<lparr>step = Some ''H'', alter = None, octave = Some 4\<rparr>"
    by (simp_all add: init_def bad_step_elem_def quarter_c4_def)
  show ?thesis
    using pitch_to_midi_unrecognized [of "''H''" 0 4 init bad_step_elem 24
        "\<lparr>step = Some ''H'', alter = None, octave = Some 4\<rparr>" 0 0]
      pitch_to_midi_unrecognized [of "''G''" 1 20] c h
    by (simp add: note_map_def)
qed

end
